theory Spec2Isabelle
  imports Complex_Main "HOL-Library.Log_Nat"
begin

section \<open>Python numbers\<close>

text \<open>
  A Python \<open>int\<close> is an \<^typ>\<open>int\<close>. A Python \<open>float\<close> is an IEEE binary64 number;
  a finite one is modelled by the rational number it denotes, and every floating-point
  operation of the source by the exact rational result rounded to 53 significant bits,
  ties to even (\<open>round53\<close>). The sign of zero is not kept. The operations of
  \<open>internet_monitor.py\<close> never reach the subnormal range; the one place where a result
  can leave the exponent range, the true division of two \<open>int\<close>s, raises
  \<open>OverflowError\<close> in Python and does so here.
\<close>

type_synonym pyfloat = rat

definition round_half_even :: "rat \<Rightarrow> int" where
  "round_half_even x =
     (let f = \<lfloor>x\<rfloor>; d = x - of_int f
      in if d < 1 / 2 then f else if 1 / 2 < d then f + 1 else if even f then f else f + 1)"

text \<open>For \<open>x > 0\<close>, the integer \<open>e\<close> with \<open>2 ^ e \<le> x < 2 ^ (e + 1)\<close>.\<close>

definition floor_log2 :: "rat \<Rightarrow> int" where
  "floor_log2 x =
     (let (p, q) = quotient_of x; e = bitlen p - bitlen q
      in if power_int 2 e \<le> x then e else e - 1)"

definition round53 :: "rat \<Rightarrow> pyfloat" where
  "round53 x =
     (if x = 0 then 0
      else let e = floor_log2 \<bar>x\<bar> - 52; m = round_half_even (\<bar>x\<bar> / power_int 2 e)
           in sgn x * of_int m * power_int 2 e)"

text \<open>
  An exception: the two that the interpreter itself raises in the code modelled here, and
  \<open>Raised d\<close> for one raised by a library call, \<open>d\<close> its description.
\<close>

datatype exn = OverflowError | UnboundLocalError | Raised string

text \<open>\<open>a / b\<close> on two \<open>int\<close>s (\<open>b\<close> is a non-zero literal at every use in the source).\<close>

definition int_truediv :: "int \<Rightarrow> int \<Rightarrow> exn + pyfloat" where
  "int_truediv a b =
     (let r = round53 (of_int a / of_int b)
      in if 2 ^ 1024 \<le> \<bar>r\<bar> then Inl OverflowError else Inr r)"

definition float_div :: "pyfloat \<Rightarrow> pyfloat \<Rightarrow> pyfloat" where
  "float_div x y = round53 (x / y)"

definition float_sub :: "pyfloat \<Rightarrow> pyfloat \<Rightarrow> pyfloat" where
  "float_sub x y = round53 (x - y)"

definition float_mul :: "pyfloat \<Rightarrow> pyfloat \<Rightarrow> pyfloat" where
  "float_mul x y = round53 (x * y)"

text \<open>
  \<open>round(x, 2)\<close> on a float: the decimal with two places nearest to the exact value of
  \<open>x\<close>, ties to even, converted back to the nearest float.
\<close>

definition py_round2 :: "pyfloat \<Rightarrow> pyfloat" where
  "py_round2 x = round53 (of_int (round_half_even (x * 100)) / 100)"

text \<open>\<open>str\<close> of a non-negative \<open>int\<close>, as the f-strings of the source format a port.\<close>

definition digit_char :: "nat \<Rightarrow> char" where
  "digit_char d = char_of (48 + d)"

function str_nat :: "nat \<Rightarrow> string" where
  "str_nat n = (if n < 10 then [digit_char n] else str_nat (n div 10) @ [digit_char (n mod 10)])"
  by pat_completeness auto
termination
  by (relation "measure id") auto

section \<open>The data of \<open>internet_monitor.py\<close>\<close>

text \<open>
  \<open>datetime.now()\<close> is a reading of the local clock, in microseconds. The format
  \<open>'%Y-%m-%d %H:%M:%S'\<close> keeps whole seconds: the formatted text is modelled by the
  number of whole seconds it shows.
\<close>

type_synonym datetime = int

datatype formatted = Formatted int

definition strftime :: "datetime \<Rightarrow> formatted" where
  "strftime t = Formatted (t div 1000000)"

datatype last_down_text = Never | DownAt formatted

text \<open>
  The event log: the level and the content of each record that the source hands to its
  logger, in order. The message text is kept as its parts.
\<close>

datatype log_record =
    Warning_HTTP_Error int string
  | Error_Request_exception exn
  | Critical_INTERNET_DOWN
  | Error_Speedtest_failed exn
  | Error_Network_info exn
  | Error_Process_scan exn
  | Info_INTERNET_RESTORED int

record traffic_baseline =
  sent :: int
  recv :: int

record monitor =
  logger :: "log_record list"
  last_down_time :: "datetime option"
  traffic_stats :: traffic_baseline
  external_ip :: string
  provider :: string

record availability_result =
  available :: bool
  status_code :: int
  ping :: "pyfloat option"
  test_url :: "string option"

record speed_result =
  download :: "pyfloat option"
  upload :: "pyfloat option"

record network_info_result =
  hostname :: string
  local_ip :: string
  mac_address :: string
  interface_name :: string
  info_external_ip :: string
  info_provider :: string

record traffic_usage =
  sent_total_mb :: pyfloat
  recv_total_mb :: pyfloat
  sent_rate_kbps :: pyfloat
  recv_rate_kbps :: pyfloat

record process_entry =
  pid :: nat
  name :: string
  local_address :: string
  remote_address :: string
  status :: string

record stats =
  timestamp :: formatted
  availability :: availability_result
  speed :: speed_result
  network_info :: network_info_result
  traffic :: traffic_usage
  processes :: "process_entry list"
  last_down :: last_down_text

section \<open>What the outside world answers\<close>

text \<open>
  Every call that leaves the program (HTTP, the speed test, \<open>psutil\<close>, \<open>netifaces\<close>,
  \<open>socket\<close>, the clocks) is answered by a value of the world; an answer \<open>Inl e\<close> is the
  call raising \<open>e\<close>.
\<close>

text \<open>
  \<open>requests.get\<close>: a response with its status code, between two readings of
  \<open>time.time()\<close>, or one of the exceptions the source tells apart. \<open>Other_exception\<close>
  is an exception outside \<open>requests.exceptions.RequestException\<close>.
\<close>

datatype http_outcome =
    Response int pyfloat pyfloat
  | ConnectionError
  | Timeout
  | RequestException exn
  | Other_exception exn

text \<open>
  One run of \<open>measure_speed\<close>'s \<open>try\<close> block: it stops at \<open>Speedtest()\<close> or
  \<open>get_best_server()\<close>, at \<open>download()\<close>, at \<open>upload()\<close>, or measures both (bits per
  second). \<open>Still_running\<close>: the thread has not finished when \<open>join(timeout=8)\<close>
  returns.
\<close>

datatype speedtest_run =
    Setup_fails exn
  | Download_fails exn
  | Upload_fails pyfloat exn
  | Measured pyfloat pyfloat

datatype speed_thread = Joined speedtest_run | Still_running

record ifaddresses =
  af_inet :: "(exn + string) option"
  af_link :: "(exn + string) option"

record interface =
  if_name :: string
  if_addrs :: "exn + ifaddresses"

record net_io =
  bytes_sent :: int
  bytes_recv :: int

datatype process_lookup =
    Process_name string
  | NoSuchProcess
  | AccessDenied
  | Lookup_raises exn

record connection =
  conn_status :: string
  conn_pid :: "nat option"
  laddr :: "string \<times> nat"
  raddr :: "(string \<times> nat) option"
  conn_process :: process_lookup

record world =
  requests_get :: "string \<Rightarrow> http_outcome"
  now_down :: datetime
  speedtest :: speed_thread
  now_stats :: datetime
  gethostname :: "exn + string"
  interfaces :: "exn + interface list"
  net_io_counters :: "exn + net_io"
  net_connections :: "exn + connection list"
  now_restored :: datetime

section \<open>\<open>InternetMonitor\<close>\<close>

definition write_log :: "log_record \<Rightarrow> monitor \<Rightarrow> monitor" where
  "write_log r s = s\<lparr>logger := logger s @ [r]\<rparr>"

definition test_urls :: "string list" where
  "test_urls = [''https://www.google.com'', ''https://www.cloudflare.com'', ''https://1.1.1.1'']"

text \<open>
  The \<open>for url in test_urls\<close> loop of \<open>check_internet_availability\<close>. The
  \<open>timeout\<close> argument only reaches \<open>requests.get\<close>, whose answer the world gives.
  \<open>Inr (Some r)\<close>:
  the loop body returned \<open>r\<close>; \<open>Inr None\<close>: the loop ran to its end; \<open>Inl e\<close>: an
  exception that no \<open>except\<close> clause of the loop catches.
\<close>

fun probe_urls ::
  "monitor \<Rightarrow> (string \<Rightarrow> http_outcome) \<Rightarrow> string list \<Rightarrow>
     (exn + availability_result option) \<times> monitor" where
  "probe_urls s get [] = (Inr None, s)"
| "probe_urls s get (url # urls) =
     (case get url of
        Response code start finish \<Rightarrow>
          (let ping_ms = float_mul (float_sub finish start) 1000;
               s' = (if 400 \<le> code then write_log (Warning_HTTP_Error code url) s else s)
           in (Inr (Some \<lparr>available = (200 \<le> code \<and> code < 400), status_code = code,
                           ping = Some (py_round2 ping_ms), test_url = Some url\<rparr>), s'))
      | ConnectionError \<Rightarrow> probe_urls s get urls
      | Timeout \<Rightarrow> probe_urls s get urls
      | RequestException e \<Rightarrow> probe_urls (write_log (Error_Request_exception e) s) get urls
      | Other_exception e \<Rightarrow> (Inl e, s))"

definition check_internet_availability ::
  "monitor \<Rightarrow> world \<Rightarrow> (exn + availability_result) \<times> monitor" where
  "check_internet_availability s w =
     (case probe_urls s (requests_get w) test_urls of
        (Inl e, s') \<Rightarrow> (Inl e, s')
      | (Inr (Some r), s') \<Rightarrow> (Inr r, s')
      | (Inr None, s') \<Rightarrow>
          (Inr \<lparr>available = False, status_code = 0, ping = None, test_url = None\<rparr>,
           if last_down_time s' = None
           then write_log Critical_INTERNET_DOWN (s'\<lparr>last_down_time := Some (now_down w)\<rparr>)
           else s'))"

definition measure_speed :: "monitor \<Rightarrow> speedtest_run \<Rightarrow> speed_result \<times> monitor" where
  "measure_speed s run =
     (case run of
        Setup_fails e \<Rightarrow>
          (\<lparr>download = None, upload = None\<rparr>, write_log (Error_Speedtest_failed e) s)
      | Download_fails e \<Rightarrow>
          (\<lparr>download = None, upload = None\<rparr>, write_log (Error_Speedtest_failed e) s)
      | Upload_fails d e \<Rightarrow>
          (\<lparr>download = Some (float_div d 1000000), upload = None\<rparr>,
           write_log (Error_Speedtest_failed e) s)
      | Measured d u \<Rightarrow>
          (\<lparr>download = Some (float_div d 1000000), upload = Some (float_div u 1000000)\<rparr>, s))"

text \<open>
  The loop over \<open>netifaces.interfaces()\<close> inside the \<open>try\<close> of \<open>get_network_info\<close>:
  the dictionary as far as it was filled, and the exception that ended the loop, if any.
\<close>

fun scan_interfaces ::
  "network_info_result \<Rightarrow> interface list \<Rightarrow> network_info_result \<times> exn option" where
  "scan_interfaces info [] = (info, None)"
| "scan_interfaces info (i # rest) =
     (case if_addrs i of
        Inl e \<Rightarrow> (info, Some e)
      | Inr addrs \<Rightarrow>
          (case af_inet addrs of
             None \<Rightarrow> scan_interfaces info rest
           | Some a \<Rightarrow>
               if if_name i \<noteq> ''lo'' then
                 (let info1 = info\<lparr>interface_name := if_name i\<rparr>
                  in case a of
                       Inl e \<Rightarrow> (info1, Some e)
                     | Inr ip \<Rightarrow>
                         (let info2 = info1\<lparr>local_ip := ip\<rparr>
                          in case af_link addrs of
                               None \<Rightarrow> (info2, None)
                             | Some (Inl e) \<Rightarrow> (info2, Some e)
                             | Some (Inr mac) \<Rightarrow> (info2\<lparr>mac_address := mac\<rparr>, None)))
               else scan_interfaces info rest))"

definition get_network_info ::
  "monitor \<Rightarrow> world \<Rightarrow> (exn + network_info_result) \<times> monitor" where
  "get_network_info s w =
     (case gethostname w of
        Inl e \<Rightarrow> (Inl e, s)
      | Inr h \<Rightarrow>
          (let info = \<lparr>hostname = h, local_ip = ''N/A'', mac_address = ''N/A'',
                       interface_name = ''N/A'', info_external_ip = external_ip s,
                       info_provider = provider s\<rparr>
           in case interfaces w of
                Inl e \<Rightarrow> (Inr info, write_log (Error_Network_info e) s)
              | Inr ifs \<Rightarrow>
                  (case scan_interfaces info ifs of
                     (info', None) \<Rightarrow> (Inr info', s)
                   | (info', Some e) \<Rightarrow> (Inr info', write_log (Error_Network_info e) s))))"

definition get_traffic_usage ::
  "monitor \<Rightarrow> exn + net_io \<Rightarrow> (exn + traffic_usage) \<times> monitor" where
  "get_traffic_usage s io =
     (case io of
        Inl e \<Rightarrow> (Inl e, s)
      | Inr c \<Rightarrow>
          (let current_sent = bytes_sent c;
               current_recv = bytes_recv c;
               sent_diff = current_sent - sent (traffic_stats s);
               recv_diff = current_recv - recv (traffic_stats s);
               s' = s\<lparr>traffic_stats :=
                       (traffic_stats s)\<lparr>sent := current_sent, recv := current_recv\<rparr>\<rparr>
           in case int_truediv current_sent 1048576 of
                Inl e \<Rightarrow> (Inl e, s')
              | Inr sent_mb \<Rightarrow>
           (case int_truediv current_recv 1048576 of
                Inl e \<Rightarrow> (Inl e, s')
              | Inr recv_mb \<Rightarrow>
           (case int_truediv (sent_diff * 8) 1024 of
                Inl e \<Rightarrow> (Inl e, s')
              | Inr sent_kb \<Rightarrow>
           (case int_truediv (recv_diff * 8) 1024 of
                Inl e \<Rightarrow> (Inl e, s')
              | Inr recv_kb \<Rightarrow>
                  (Inr \<lparr>sent_total_mb = py_round2 sent_mb,
                        recv_total_mb = py_round2 recv_mb,
                        sent_rate_kbps = py_round2 (float_div sent_kb 10),
                        recv_rate_kbps = py_round2 (float_div recv_kb 10)\<rparr>, s'))))))"

definition CONN_ESTABLISHED :: string where
  "CONN_ESTABLISHED = ''ESTABLISHED''"

definition format_addr :: "string \<times> nat \<Rightarrow> string" where
  "format_addr a = fst a @ '':'' @ str_nat (snd a)"

definition make_entry :: "connection \<Rightarrow> nat \<Rightarrow> string \<Rightarrow> process_entry" where
  "make_entry conn p n =
     \<lparr>pid = p, name = n, local_address = format_addr (laddr conn),
      remote_address = (case raddr conn of Some a \<Rightarrow> format_addr a | None \<Rightarrow> ''N/A''),
      status = conn_status conn\<rparr>"

text \<open>
  The loop over \<open>psutil.net_connections(kind='inet')\<close> inside the outer \<open>try\<close> of
  \<open>get_network_processes\<close>: the list as far as it was filled, and the exception that
  ended the loop, if any. \<open>conn.pid\<close> is false when it is \<open>None\<close> or \<open>0\<close>.
\<close>

fun scan_connections ::
  "process_entry list \<Rightarrow> connection list \<Rightarrow> process_entry list \<times> exn option" where
  "scan_connections procs [] = (procs, None)"
| "scan_connections procs (conn # conns) =
     (case conn_pid conn of
        None \<Rightarrow> scan_connections procs conns
      | Some p \<Rightarrow>
          if conn_status conn = CONN_ESTABLISHED \<and> p \<noteq> 0 then
            (case conn_process conn of
               Process_name n \<Rightarrow> scan_connections (procs @ [make_entry conn p n]) conns
             | NoSuchProcess \<Rightarrow> scan_connections procs conns
             | AccessDenied \<Rightarrow> scan_connections procs conns
             | Lookup_raises e \<Rightarrow> (procs, Some e))
          else scan_connections procs conns)"

definition get_network_processes ::
  "monitor \<Rightarrow> exn + connection list \<Rightarrow> process_entry list \<times> monitor" where
  "get_network_processes s nc =
     (case nc of
        Inl e \<Rightarrow> (take 20 [], write_log (Error_Process_scan e) s)
      | Inr conns \<Rightarrow>
          (case scan_connections [] conns of
             (procs, None) \<Rightarrow> (take 20 procs, s)
           | (procs, Some e) \<Rightarrow> (take 20 procs, write_log (Error_Process_scan e) s)))"

text \<open>
  \<open>get_all_stats\<close>. The speed test runs in a thread that is joined for at most eight
  seconds; what the thread does after that wait is outside this call. The entries of the
  \<open>stats\<close> dictionary are evaluated in the order written, and an exception leaves the
  method at the call that raised it.
\<close>

definition get_all_stats :: "monitor \<Rightarrow> world \<Rightarrow> (exn + stats) \<times> monitor" where
  "get_all_stats s w =
     (case check_internet_availability s w of
        (Inl e, s1) \<Rightarrow> (Inl e, s1)
      | (Inr avail, s1) \<Rightarrow>
          (let (speed_res, s2) =
                 (if available avail then
                    (case speedtest w of
                       Joined run \<Rightarrow> measure_speed s1 run
                     | Still_running \<Rightarrow> (\<lparr>download = None, upload = None\<rparr>, s1))
                  else (\<lparr>download = None, upload = None\<rparr>, s1))
           in case get_network_info s2 w of
                (Inl e, s3) \<Rightarrow> (Inl e, s3)
              | (Inr info, s3) \<Rightarrow>
           (case get_traffic_usage s3 (net_io_counters w) of
                (Inl e, s4) \<Rightarrow> (Inl e, s4)
              | (Inr usage, s4) \<Rightarrow>
                  (let (procs, s5) = get_network_processes s4 (net_connections w);
                       result =
                         \<lparr>timestamp = strftime (now_stats w), availability = avail,
                          speed = speed_res, network_info = info, traffic = usage,
                          processes = procs,
                          last_down = (case last_down_time s5 of
                                         Some t \<Rightarrow> DownAt (strftime t)
                                       | None \<Rightarrow> Never)\<rparr>
                   in case last_down_time s5 of
                        Some t \<Rightarrow>
                          if available avail then
                            (Inr result,
                             (write_log (Info_INTERNET_RESTORED (now_restored w - t)) s5)
                               \<lparr>last_down_time := None\<rparr>)
                          else (Inr result, s5)
                      | None \<Rightarrow> (Inr result, s5)))))"

section \<open>\<open>app.py\<close>\<close>

text \<open>
  The module-level names of \<open>app.py\<close>: \<open>cached_stats\<close> (\<open>None\<close> is the empty
  dictionary it starts as), \<open>cache_time\<close> and \<open>monitor\<close>.
\<close>

record app =
  cached_stats :: "stats option"
  cache_time :: pyfloat
  app_monitor :: monitor

definition CACHE_TTL :: pyfloat where
  "CACHE_TTL = 5"

text \<open>
  One pass of the \<open>while True\<close> loop of \<open>update_cache\<close>, up to the \<open>sleep\<close>;
  \<open>now\<close> is the reading of \<open>time.time()\<close>. An exception ends the thread.
\<close>

definition update_cache :: "app \<Rightarrow> world \<Rightarrow> pyfloat \<Rightarrow> (exn + unit) \<times> app" where
  "update_cache a w now =
     (case get_all_stats (app_monitor a) w of
        (Inl e, m) \<Rightarrow> (Inl e, a\<lparr>app_monitor := m\<rparr>)
      | (Inr st, m) \<Rightarrow>
          (Inr (), a\<lparr>cached_stats := Some st, cache_time := now, app_monitor := m\<rparr>))"

text \<open>
  \<open>get_stats\<close>, the handler of \<open>/api/stats\<close>; the value returned is what it passes to
  \<open>jsonify\<close>. The function assigns to \<open>cached_stats\<close> without declaring it
  \<open>global\<close>, so the name is local to the function in all of its body: the assignment
  does not reach the module-level name, and reading the name on the path that has not
  assigned it raises \<open>UnboundLocalError\<close>. \<open>cache_time\<close> is only read, so it is the
  module-level name.
\<close>

definition get_stats :: "app \<Rightarrow> pyfloat \<Rightarrow> world \<Rightarrow> (exn + stats) \<times> app" where
  "get_stats a now w =
     (if CACHE_TTL < float_sub now (cache_time a) then
        (case get_all_stats (app_monitor a) w of
           (Inl e, m) \<Rightarrow> (Inl e, a\<lparr>app_monitor := m\<rparr>)
         | (Inr local_cached_stats, m) \<Rightarrow> (Inr local_cached_stats, a\<lparr>app_monitor := m\<rparr>))
      else (Inl UnboundLocalError, a))"

section \<open>The specification's formulas\<close>

text \<open>
  The rate of the specification, \<open>round(d * 8 / 1024 / 10, 2)\<close> for a difference of
  \<open>d\<close> bytes, and its total, \<open>round(bytes / 1048576, 2)\<close>, in Python's arithmetic.
\<close>

definition rate_kbps :: "int \<Rightarrow> pyfloat" where
  "rate_kbps d = py_round2 (float_div (round53 (of_int (d * 8) / 1024)) 10)"

definition total_mb :: "int \<Rightarrow> pyfloat" where
  "total_mb b = py_round2 (round53 (of_int b / 1048576))"

text \<open>Cumulative counters as a kernel keeps them: unsigned, 64 bits.\<close>

definition kernel_counters :: "net_io \<Rightarrow> bool" where
  "kernel_counters c \<longleftrightarrow>
     0 \<le> bytes_sent c \<and> bytes_sent c < 2 ^ 64 \<and> 0 \<le> bytes_recv c \<and> bytes_recv c < 2 ^ 64"

text \<open>
  A qualifying connection of the specification, with the entry it contributes: it is
  established, has an owning process, and the name of that process resolves.
\<close>

definition qualifying :: "connection \<Rightarrow> process_entry option" where
  "qualifying conn =
     (case conn_pid conn of
        None \<Rightarrow> None
      | Some p \<Rightarrow>
          if conn_status conn = CONN_ESTABLISHED \<and> p \<noteq> 0 then
            (case conn_process conn of
               Process_name n \<Rightarrow> Some (make_entry conn p n)
             | _ \<Rightarrow> None)
          else None)"

text \<open>
  A connection at which the enumeration loop ends early: its process lookup raises
  something other than \<open>NoSuchProcess\<close> and \<open>AccessDenied\<close>.
\<close>

definition scan_aborts :: "connection \<Rightarrow> bool" where
  "scan_aborts conn =
     (case conn_pid conn of
        None \<Rightarrow> False
      | Some p \<Rightarrow>
          conn_status conn = CONN_ESTABLISHED \<and> p \<noteq> 0 \<and>
          (case conn_process conn of Lookup_raises e \<Rightarrow> True | _ \<Rightarrow> False))"

text \<open>
  An answer of \<open>requests.get\<close> after which the loop goes on to the next endpoint, and
  the records that the loop logs for a list of such endpoints.
\<close>

definition advances :: "http_outcome \<Rightarrow> bool" where
  "advances outcome =
     (case outcome of
        ConnectionError \<Rightarrow> True
      | Timeout \<Rightarrow> True
      | RequestException e \<Rightarrow> True
      | _ \<Rightarrow> False)"

definition skipped_errors :: "(string \<Rightarrow> http_outcome) \<Rightarrow> string list \<Rightarrow> log_record list" where
  "skipped_errors get urls =
     List.map_filter
       (\<lambda>url. case get url of
                 RequestException e \<Rightarrow> Some (Error_Request_exception e)
               | _ \<Rightarrow> None) urls"

section \<open>Sample monitors and worlds\<close>

definition monitor_up :: monitor where
  "monitor_up =
     \<lparr>logger = [], last_down_time = None,
      traffic_stats = \<lparr>sent = 1000000, recv = 5000000\<rparr>,
      external_ip = ''203.0.113.7'', provider = ''Example ISP''\<rparr>"

definition monitor_down :: monitor where
  "monitor_down =
     monitor_up\<lparr>logger := [Critical_INTERNET_DOWN], last_down_time := Some 1700000000000000\<rparr>"

definition google :: string where
  "google = ''https://www.google.com''"

definition cloudflare :: string where
  "cloudflare = ''https://www.cloudflare.com''"

definition counters_before :: net_io where
  "counters_before = \<lparr>bytes_sent = 1000000, bytes_recv = 5000000\<rparr>"

definition counters_after :: net_io where
  "counters_after = \<lparr>bytes_sent = 1102400, bytes_recv = 5000000\<rparr>"

text \<open>Two readings of \<open>time.time()\<close>, a quarter of a second apart.\<close>

definition time_before :: pyfloat where
  "time_before = 1700000100"

definition time_after :: pyfloat where
  "time_after = 1700000100 + 1 / 4"

text \<open>Every endpoint answers 200 after a quarter of a second; nothing else fails.\<close>

definition world_up :: world where
  "world_up =
     \<lparr>requests_get = (\<lambda>url. Response 200 time_before time_after),
      now_down = 1700000100000000,
      speedtest = Still_running,
      now_stats = 1700000109000000,
      gethostname = Inr ''host'',
      interfaces = Inr [],
      net_io_counters = Inr counters_after,
      net_connections = Inr [],
      now_restored = 1700000109500000\<rparr>"

text \<open>The first endpoint refuses the connection, the other two time out.\<close>

definition world_offline :: world where
  "world_offline =
     world_up\<lparr>requests_get := (\<lambda>url. if url = google then ConnectionError else Timeout)\<rparr>"

text \<open>The first endpoint refuses the connection, the second answers 404.\<close>

definition world_second_answers :: world where
  "world_second_answers =
     world_up\<lparr>requests_get :=
        (\<lambda>url. if url = google then ConnectionError
               else Response 404 time_before time_after)\<rparr>"

text \<open>The first endpoint answers 503.\<close>

definition world_http_503 :: world where
  "world_http_503 =
     world_up\<lparr>requests_get := (\<lambda>url. Response 503 time_before time_after)\<rparr>"

text \<open>
  The host has no network interface that counts traffic: \<open>psutil.net_io_counters()\<close>
  returns \<open>None\<close>, and reading \<open>bytes_sent\<close> from it raises.
\<close>

definition world_no_counters :: world where
  "world_no_counters =
     world_up\<lparr>net_io_counters :=
        Inl (Raised ''AttributeError: NoneType object has no attribute bytes_sent'')\<rparr>"

text \<open>
  Established connections: two whose process name resolves, one whose process has gone,
  and one whose lookup raises an exception that the loop does not skip.
\<close>

definition connection_curl :: connection where
  "connection_curl =
     \<lparr>conn_status = ''ESTABLISHED'', conn_pid = Some 21, laddr = (''10.0.0.1'', 5000),
      raddr = Some (''1.1.1.1'', 443), conn_process = Process_name ''curl''\<rparr>"

definition connection_broken :: connection where
  "connection_broken =
     \<lparr>conn_status = ''ESTABLISHED'', conn_pid = Some 22, laddr = (''10.0.0.1'', 5001),
      raddr = None, conn_process = Lookup_raises (Raised ''OSError'')\<rparr>"

definition connection_gone :: connection where
  "connection_gone =
     \<lparr>conn_status = ''ESTABLISHED'', conn_pid = Some 22, laddr = (''10.0.0.1'', 5001),
      raddr = None, conn_process = NoSuchProcess\<rparr>"

definition connection_ssh :: connection where
  "connection_ssh =
     \<lparr>conn_status = ''ESTABLISHED'', conn_pid = Some 23, laddr = (''10.0.0.1'', 22),
      raddr = Some (''10.0.0.9'', 40000), conn_process = Process_name ''ssh''\<rparr>"

definition app_stale :: app where
  "app_stale = \<lparr>cached_stats = None, cache_time = 0, app_monitor = monitor_up\<rparr>"

text \<open>
  What \<open>get_all_stats\<close> returns in \<open>world_up\<close>, but for \<open>last_down\<close>, and the
  monitor it leaves, without and with a recovery.
\<close>

definition snapshot_up :: "last_down_text \<Rightarrow> stats" where
  "snapshot_up ld =
     \<lparr>timestamp = Formatted 1700000109,
      availability = \<lparr>available = True, status_code = 200, ping = Some 250,
                      test_url = Some google\<rparr>,
      speed = \<lparr>download = None, upload = None\<rparr>,
      network_info = \<lparr>hostname = ''host'', local_ip = ''N/A'', mac_address = ''N/A'',
                      interface_name = ''N/A'', info_external_ip = ''203.0.113.7'',
                      info_provider = ''Example ISP''\<rparr>,
      traffic = \<lparr>sent_total_mb = total_mb 1102400, recv_total_mb = total_mb 5000000,
                 sent_rate_kbps = 80, recv_rate_kbps = 0\<rparr>,
      processes = [],
      last_down = ld\<rparr>"

definition monitor_sampled :: monitor where
  "monitor_sampled = monitor_up\<lparr>traffic_stats := \<lparr>sent = 1102400, recv = 5000000\<rparr>\<rparr>"

definition monitor_recovered :: monitor where
  "monitor_recovered =
     monitor_sampled\<lparr>logger := [Critical_INTERNET_DOWN, Info_INTERNET_RESTORED 109500000]\<rparr>"

section \<open>The rounding on values known from Python\<close>

text \<open>
  \<open>(1/3).as_integer_ratio()\<close>, \<open>0.3 - 0.1 == 0.19999999999999998\<close>,
  \<open>round(2.675, 2) == 2.67\<close>, \<open>round(0.125, 2) == 0.12\<close> and
  \<open>round(0.375, 2) == 0.38\<close>; a formatted address.
\<close>

lemma round53_one_third:
  "quotient_of (round53 (1 / 3)) = (6004799503160661, 18014398509481984)"
  by code_simp

lemma float_sub_three_tenths:
  "quotient_of (float_sub (round53 (3 / 10)) (round53 (1 / 10))) =
     (7205759403792793, 36028797018963968)"
  by code_simp

lemma py_round2_below_tie: "py_round2 (round53 (2675 / 1000)) = round53 (267 / 100)"
  by code_simp

lemma py_round2_ties_to_even:
  "py_round2 (1 / 8) = round53 (12 / 100) \<and> py_round2 (3 / 8) = round53 (38 / 100)"
  by code_simp

lemma format_addr_https: "format_addr (''10.0.0.1'', 443) = ''10.0.0.1:443''"
  by code_simp

section \<open>Rounding stays in range\<close>

lemma round_half_even_le: "of_int (round_half_even y) \<le> y + 1 / 2"
  unfolding round_half_even_def Let_def
  by (auto simp: not_less) linarith+

lemma round_half_even_nonneg: "0 \<le> y \<Longrightarrow> 0 \<le> round_half_even y"
  unfolding round_half_even_def Let_def
  by auto

lemma floor_log2_le:
  assumes "0 < x"
  shows "power_int 2 (floor_log2 x) \<le> x"
proof -
  obtain p q where pq: "quotient_of x = (p, q)"
    by force
  have q: "0 < q"
    using quotient_of_denom_pos [OF pq] .
  have x: "x = of_int p / of_int q"
    using quotient_of_div [OF pq] .
  have p: "0 < p"
    using assms q unfolding x by (simp add: zero_less_divide_iff)
  have bp: "2 ^ nat (bitlen p - 1) \<le> p" and bq: "q < 2 ^ nat (bitlen q)"
    using bitlen_bounds [OF p] bitlen_bounds [OF q] by simp_all
  have low: "power_int (2::rat) (bitlen p - bitlen q - 1) \<le> x"
  proof -
    have p1: "1 \<le> bitlen p" and q1: "1 \<le> bitlen q"
      using p q by (simp_all add: bitlen_ge_iff_power)
    have "power_int (2::rat) (bitlen p - bitlen q - 1) =
            power_int 2 (bitlen p - 1) / power_int 2 (bitlen q)"
      using power_int_diff [of "2::rat" "bitlen p - 1" "bitlen q"] by (simp add: algebra_simps)
    also have "\<dots> = 2 ^ nat (bitlen p - 1) / 2 ^ nat (bitlen q)"
      using p1 q1 by (simp add: power_int_def)
    also have "\<dots> \<le> of_int p / of_int q"
    proof (rule frac_le)
      show "(2::rat) ^ nat (bitlen p - 1) \<le> of_int p"
        using bp by (metis of_int_le_iff of_int_numeral of_int_power)
      show "of_int q \<le> (2::rat) ^ nat (bitlen q)"
        using bq by (metis less_imp_le of_int_le_iff of_int_numeral of_int_power)
    qed (use p q in simp_all)
    finally show ?thesis
      unfolding x .
  qed
  show ?thesis
    using low pq by (simp add: floor_log2_def Let_def)
qed

lemma round53_bound: "\<bar>round53 x\<bar> \<le> 2 * \<bar>x\<bar>"
proof (cases "x = 0")
  case True
  then show ?thesis by (simp add: round53_def)
next
  case False
  define a where "a = \<bar>x\<bar>"
  define e where "e = floor_log2 a - 52"
  define m where "m = round_half_even (a / power_int 2 e)"
  have a: "0 < a"
    using False by (simp add: a_def)
  have pe: "0 < power_int (2::rat) e"
    by simp
  have "power_int (2::rat) e = power_int 2 (floor_log2 a) / power_int 2 52"
    unfolding e_def using power_int_diff [of "2::rat" "floor_log2 a" 52] by simp
  also have "\<dots> \<le> power_int 2 (floor_log2 a)"
    by (simp add: divide_le_eq)
  also have "\<dots> \<le> a"
    using floor_log2_le [OF a] .
  finally have ea: "power_int 2 e \<le> a" .
  have m0: "0 \<le> m"
    unfolding m_def using a by (intro round_half_even_nonneg) simp
  have "of_int m \<le> a / power_int 2 e + 1 / 2"
    unfolding m_def by (rule round_half_even_le)
  then have "of_int m * power_int 2 e \<le> (a / power_int 2 e + 1 / 2) * power_int 2 e"
    using pe by (simp only: mult_le_cancel_right_pos)
  also have "\<dots> = a + power_int 2 e / 2"
    by (simp add: algebra_simps)
  also have "\<dots> \<le> 2 * a"
    using ea a by linarith
  finally have "of_int m * power_int 2 e \<le> 2 * a" .
  moreover have "\<bar>round53 x\<bar> = of_int m * power_int 2 e"
    using False m0 by (simp add: round53_def Let_def a_def e_def m_def abs_mult)
  ultimately show ?thesis
    by (simp add: a_def)
qed

lemma int_truediv_returns:
  assumes "\<bar>a\<bar> < 2 ^ 1000" and "1 \<le> b"
  shows "int_truediv a b = Inr (round53 (of_int a / of_int b))"
proof -
  have "\<bar>of_int a / of_int b :: rat\<bar> \<le> \<bar>of_int a\<bar>"
    using assms(2) by (simp add: divide_le_eq mult_le_cancel_left1 abs_mult)
  also have "\<dots> < 2 ^ 1000"
    using assms(1) by (metis of_int_abs of_int_less_iff of_int_numeral of_int_power)
  finally have "2 * \<bar>of_int a / of_int b :: rat\<bar> < 2 ^ 1024"
    by simp
  with round53_bound [of "of_int a / of_int b"]
  have "\<bar>round53 (of_int a / of_int b)\<bar> < 2 ^ 1024"
    by linarith
  then show ?thesis
    by (simp add: int_truediv_def Let_def)
qed

lemma round53_zero: "round53 0 = 0"
  by (simp add: round53_def)

lemma int_truediv_zero: "int_truediv 0 b = Inr 0"
  by (simp add: int_truediv_def round53_zero)

lemma py_round2_zero: "py_round2 0 = 0"
  by (simp add: py_round2_def round_half_even_def round53_zero)

lemma float_div_zero: "float_div 0 y = 0"
  by (simp add: float_div_def round53_zero)

lemma rate_kbps_102400: "rate_kbps 102400 = 80"
  by code_simp

lemma rate_kbps_zero: "rate_kbps 0 = 0"
  by (simp add: rate_kbps_def round53_zero float_div_zero py_round2_zero)

section \<open>Traffic\<close>

lemma get_traffic_usage_state:
  "snd (get_traffic_usage s (Inr c)) =
     s\<lparr>traffic_stats := \<lparr>sent = bytes_sent c, recv = bytes_recv c\<rparr>\<rparr>"
  by (simp add: get_traffic_usage_def Let_def split: sum.splits)

lemma get_traffic_usage_reading:
  assumes "fst (get_traffic_usage s (Inr c)) = Inr r"
  shows "r = \<lparr>sent_total_mb = total_mb (bytes_sent c),
              recv_total_mb = total_mb (bytes_recv c),
              sent_rate_kbps = rate_kbps (bytes_sent c - sent (traffic_stats s)),
              recv_rate_kbps = rate_kbps (bytes_recv c - recv (traffic_stats s))\<rparr>"
  using assms
  by (auto simp: get_traffic_usage_def Let_def int_truediv_def total_mb_def rate_kbps_def
           split: sum.splits if_splits)

lemma get_traffic_usage_returns:
  assumes "\<bar>bytes_sent c\<bar> < 2 ^ 64" "\<bar>bytes_recv c\<bar> < 2 ^ 64"
    and "\<bar>sent (traffic_stats s)\<bar> < 2 ^ 64" "\<bar>recv (traffic_stats s)\<bar> < 2 ^ 64"
  shows "fst (get_traffic_usage s (Inr c)) =
           Inr \<lparr>sent_total_mb = total_mb (bytes_sent c),
                recv_total_mb = total_mb (bytes_recv c),
                sent_rate_kbps = rate_kbps (bytes_sent c - sent (traffic_stats s)),
                recv_rate_kbps = rate_kbps (bytes_recv c - recv (traffic_stats s))\<rparr>"
proof -
  have a: "int_truediv (bytes_sent c) 1048576 = Inr (round53 (of_int (bytes_sent c) / 1048576))"
    using int_truediv_returns [of "bytes_sent c" 1048576] assms(1) by simp
  have b: "int_truediv (bytes_recv c) 1048576 = Inr (round53 (of_int (bytes_recv c) / 1048576))"
    using int_truediv_returns [of "bytes_recv c" 1048576] assms(2) by simp
  have c: "int_truediv ((bytes_sent c - sent (traffic_stats s)) * 8) 1024 =
             Inr (round53 (of_int ((bytes_sent c - sent (traffic_stats s)) * 8) / 1024))"
    using int_truediv_returns [of "(bytes_sent c - sent (traffic_stats s)) * 8" 1024] assms(1,3)
    by simp
  have d: "int_truediv ((bytes_recv c - recv (traffic_stats s)) * 8) 1024 =
             Inr (round53 (of_int ((bytes_recv c - recv (traffic_stats s)) * 8) / 1024))"
    using int_truediv_returns [of "(bytes_recv c - recv (traffic_stats s)) * 8" 1024] assms(2,4)
    by simp
  show ?thesis
    by (simp add: get_traffic_usage_def Let_def a b c d total_mb_def rate_kbps_def
             del: left_diff_distrib_numeral)
qed

lemma kernel_counters_abs:
  "kernel_counters c \<Longrightarrow> \<bar>bytes_sent c\<bar> < 2 ^ 64 \<and> \<bar>bytes_recv c\<bar> < 2 ^ 64"
  by (simp add: kernel_counters_def)

text \<open>
  Claim C4. Of two consecutive calls of \<open>get_traffic_usage\<close>, the second reports the
  rates \<open>round(d * 8 / 1024 / 10, 2)\<close> for the differences \<open>d\<close> between the counters
  read by the two calls, and the totals \<open>round(bytes / 1048576, 2)\<close> of the counters it
  read; the divisor 10 is a constant, and no clock is read. A difference of 102400 sent
  bytes gives the rate 80. With counters in the range of a 64-bit kernel counter the call
  does return a reading.
\<close>

theorem sample_rates:
  "(fst (get_traffic_usage (snd (get_traffic_usage s (Inr c1))) (Inr c2)) = Inr r \<longrightarrow>
      sent_rate_kbps r = rate_kbps (bytes_sent c2 - bytes_sent c1) \<and>
      recv_rate_kbps r = rate_kbps (bytes_recv c2 - bytes_recv c1) \<and>
      sent_total_mb r = total_mb (bytes_sent c2) \<and>
      recv_total_mb r = total_mb (bytes_recv c2) \<and>
      (bytes_sent c2 - bytes_sent c1 = 102400 \<longrightarrow> sent_rate_kbps r = 80)) \<and>
   (kernel_counters c1 \<and> kernel_counters c2 \<longrightarrow>
      (\<exists>r'. fst (get_traffic_usage (snd (get_traffic_usage s (Inr c1))) (Inr c2)) = Inr r'))"
proof (intro conjI impI)
  let ?s1 = "snd (get_traffic_usage s (Inr c1))"
  have base: "sent (traffic_stats ?s1) = bytes_sent c1" "recv (traffic_stats ?s1) = bytes_recv c1"
    by (simp_all add: get_traffic_usage_state)
  {
    assume "fst (get_traffic_usage ?s1 (Inr c2)) = Inr r"
    from get_traffic_usage_reading [OF this]
    have r: "r = \<lparr>sent_total_mb = total_mb (bytes_sent c2),
                   recv_total_mb = total_mb (bytes_recv c2),
                   sent_rate_kbps = rate_kbps (bytes_sent c2 - bytes_sent c1),
                   recv_rate_kbps = rate_kbps (bytes_recv c2 - bytes_recv c1)\<rparr>"
      by (simp only: base)
    show "sent_rate_kbps r = rate_kbps (bytes_sent c2 - bytes_sent c1)"
      and "recv_rate_kbps r = rate_kbps (bytes_recv c2 - bytes_recv c1)"
      and "sent_total_mb r = total_mb (bytes_sent c2)"
      and "recv_total_mb r = total_mb (bytes_recv c2)"
      by (simp_all add: r)
    assume "bytes_sent c2 - bytes_sent c1 = 102400"
    then show "sent_rate_kbps r = 80"
      by (simp add: r rate_kbps_102400)
  }
  assume k: "kernel_counters c1 \<and> kernel_counters c2"
  have "fst (get_traffic_usage ?s1 (Inr c2)) =
          Inr \<lparr>sent_total_mb = total_mb (bytes_sent c2),
               recv_total_mb = total_mb (bytes_recv c2),
               sent_rate_kbps = rate_kbps (bytes_sent c2 - sent (traffic_stats ?s1)),
               recv_rate_kbps = rate_kbps (bytes_recv c2 - recv (traffic_stats ?s1))\<rparr>"
    using k kernel_counters_abs [of c1] kernel_counters_abs [of c2]
    by (intro get_traffic_usage_returns) (simp_all only: base)
  then show "\<exists>r'. fst (get_traffic_usage ?s1 (Inr c2)) = Inr r'"
    by blast
qed

theorem sample_rates_witness:
  "kernel_counters counters_before \<and> kernel_counters counters_after \<and>
   bytes_sent counters_after - bytes_sent counters_before = 102400 \<and>
   (\<exists>r. fst (get_traffic_usage (snd (get_traffic_usage monitor_up (Inr counters_before)))
                (Inr counters_after)) = Inr r \<and>
        sent_rate_kbps r = 80 \<and> recv_rate_kbps r = rate_kbps 0)"
proof -
  have k: "kernel_counters counters_before \<and> kernel_counters counters_after"
    by (simp add: kernel_counters_def counters_before_def counters_after_def)
  have d: "bytes_sent counters_after - bytes_sent counters_before = 102400"
    and d': "bytes_recv counters_after - bytes_recv counters_before = 0"
    by (simp_all add: counters_before_def counters_after_def)
  from k sample_rates [of monitor_up counters_before counters_after]
  obtain r where r: "fst (get_traffic_usage (snd (get_traffic_usage monitor_up
      (Inr counters_before))) (Inr counters_after)) = Inr r"
    by blast
  with d d' sample_rates [of monitor_up counters_before counters_after r]
  have "sent_rate_kbps r = 80 \<and> recv_rate_kbps r = rate_kbps 0"
    by simp
  with k d r show ?thesis
    by blast
qed

text \<open>
  Claim C9. A call of \<open>get_traffic_usage\<close> that reads the counters leaves them, as
  read, in \<open>traffic_stats\<close>, and nothing else of the monitor changes; a call whose
  reading of the counters raises leaves the monitor as it was. Reads are not idempotent:
  a second call on the same counters reports the rates 0.
\<close>

theorem baseline_is_last_counters:
  "snd (get_traffic_usage s (Inr c)) =
     s\<lparr>traffic_stats := \<lparr>sent = bytes_sent c, recv = bytes_recv c\<rparr>\<rparr> \<and>
   snd (get_traffic_usage s (Inl e)) = s \<and>
   (fst (get_traffic_usage s (Inr c)) = Inr r \<longrightarrow>
    fst (get_traffic_usage (snd (get_traffic_usage s (Inr c))) (Inr c)) =
      Inr (r\<lparr>sent_rate_kbps := 0, recv_rate_kbps := 0\<rparr>))"
proof (intro conjI impI)
  show upd: "snd (get_traffic_usage s (Inr c)) =
     s\<lparr>traffic_stats := \<lparr>sent = bytes_sent c, recv = bytes_recv c\<rparr>\<rparr>"
    by (rule get_traffic_usage_state)
  show "snd (get_traffic_usage s (Inl e)) = s"
    by (simp add: get_traffic_usage_def)
  assume "fst (get_traffic_usage s (Inr c)) = Inr r"
  then show "fst (get_traffic_usage (snd (get_traffic_usage s (Inr c))) (Inr c)) =
      Inr (r\<lparr>sent_rate_kbps := 0, recv_rate_kbps := 0\<rparr>)"
    unfolding upd
    by (auto simp: get_traffic_usage_def Let_def int_truediv_zero py_round2_zero float_div_zero
             split: sum.splits)
qed

lemma first_sample:
  "fst (get_traffic_usage monitor_up (Inr counters_after)) =
     Inr \<lparr>sent_total_mb = total_mb 1102400, recv_total_mb = total_mb 5000000,
          sent_rate_kbps = 80, recv_rate_kbps = 0\<rparr>"
proof -
  have "fst (get_traffic_usage monitor_up (Inr counters_after)) =
     Inr \<lparr>sent_total_mb = total_mb (bytes_sent counters_after),
          recv_total_mb = total_mb (bytes_recv counters_after),
          sent_rate_kbps = rate_kbps (bytes_sent counters_after - sent (traffic_stats monitor_up)),
          recv_rate_kbps = rate_kbps (bytes_recv counters_after - recv (traffic_stats monitor_up))\<rparr>"
    by (rule get_traffic_usage_returns) (simp_all add: counters_after_def monitor_up_def)
  then show ?thesis
    by (simp add: counters_after_def monitor_up_def rate_kbps_102400 rate_kbps_zero)
qed

theorem baseline_is_last_counters_witness:
  "fst (get_traffic_usage monitor_up (Inr counters_after)) =
     Inr \<lparr>sent_total_mb = total_mb 1102400, recv_total_mb = total_mb 5000000,
          sent_rate_kbps = 80, recv_rate_kbps = 0\<rparr> \<and>
   fst (get_traffic_usage (snd (get_traffic_usage monitor_up (Inr counters_after)))
          (Inr counters_after)) =
     Inr \<lparr>sent_total_mb = total_mb 1102400, recv_total_mb = total_mb 5000000,
          sent_rate_kbps = 0, recv_rate_kbps = 0\<rparr> \<and>
   traffic_stats (snd (get_traffic_usage monitor_up (Inr counters_after))) =
     \<lparr>sent = 1102400, recv = 5000000\<rparr>"
proof -
  let ?r = "\<lparr>sent_total_mb = total_mb 1102400, recv_total_mb = total_mb 5000000,
             sent_rate_kbps = 80, recv_rate_kbps = 0\<rparr>"
  note t = baseline_is_last_counters [of monitor_up counters_after "Raised []" ?r]
  from t have "traffic_stats (snd (get_traffic_usage monitor_up (Inr counters_after))) =
      \<lparr>sent = bytes_sent counters_after, recv = bytes_recv counters_after\<rparr>"
    by simp
  then have st: "traffic_stats (snd (get_traffic_usage monitor_up (Inr counters_after))) =
      \<lparr>sent = 1102400, recv = 5000000\<rparr>"
    by (simp add: counters_after_def)
  from t first_sample
  have "fst (get_traffic_usage (snd (get_traffic_usage monitor_up (Inr counters_after)))
          (Inr counters_after)) = Inr (?r\<lparr>sent_rate_kbps := 0, recv_rate_kbps := 0\<rparr>)"
    by blast
  then have second: "fst (get_traffic_usage (snd (get_traffic_usage monitor_up
      (Inr counters_after))) (Inr counters_after)) =
     Inr \<lparr>sent_total_mb = total_mb 1102400, recv_total_mb = total_mb 5000000,
          sent_rate_kbps = 0, recv_rate_kbps = 0\<rparr>"
    by simp
  from first_sample second st show ?thesis
    by blast
qed

section \<open>The connectivity probe\<close>

lemma probe_urls_skip:
  "\<forall>u \<in> set pre. get u = ConnectionError \<or> get u = Timeout \<Longrightarrow>
   probe_urls s get (pre @ rest) = probe_urls s get rest"
  by (induction pre) auto

lemma probe_urls_all_fail:
  "\<forall>u \<in> set urls. get u = ConnectionError \<or> get u = Timeout \<Longrightarrow>
   probe_urls s get urls = (Inr None, s)"
  using probe_urls_skip [of urls get s "[]"] by simp

text \<open>
  Claim C6. If each of the three endpoints fails with a connection error or a timeout,
  \<open>check_internet_availability\<close> returns \<open>available\<close> false, \<open>status_code\<close> 0, and
  neither \<open>ping\<close> nor \<open>test_url\<close>.
\<close>

theorem check_all_urls_fail:
  assumes "\<forall>u \<in> set test_urls.
             requests_get w u = ConnectionError \<or> requests_get w u = Timeout"
  shows "fst (check_internet_availability s w) =
           Inr \<lparr>available = False, status_code = 0, ping = None, test_url = None\<rparr>"
  using probe_urls_all_fail [OF assms, of s]
  by (simp add: check_internet_availability_def)

theorem check_all_urls_fail_witness:
  "requests_get world_offline google = ConnectionError \<and>
   requests_get world_offline cloudflare = Timeout \<and>
   requests_get world_offline ''https://1.1.1.1'' = Timeout \<and>
   fst (check_internet_availability monitor_up world_offline) =
     Inr \<lparr>available = False, status_code = 0, ping = None, test_url = None\<rparr>"
proof -
  have h: "\<forall>u \<in> set test_urls.
      requests_get world_offline u = ConnectionError \<or> requests_get world_offline u = Timeout"
    by (simp add: world_offline_def world_up_def)
  have "requests_get world_offline google = ConnectionError"
    and "requests_get world_offline cloudflare = Timeout"
    and "requests_get world_offline ''https://1.1.1.1'' = Timeout"
    by (simp_all add: world_offline_def world_up_def google_def cloudflare_def)
  with check_all_urls_fail [OF h, of monitor_up] show ?thesis
    by blast
qed

lemma probe_urls_advance:
  "\<forall>u \<in> set pre. advances (get u) \<Longrightarrow>
   probe_urls s get (pre @ rest) =
     probe_urls (s\<lparr>logger := logger s @ skipped_errors get pre\<rparr>) get rest"
proof (induction pre arbitrary: s)
  case Nil
  then show ?case by (simp add: skipped_errors_def List.map_filter_simps)
next
  case (Cons u pre)
  then show ?case
    by (cases "get u")
       (simp_all add: advances_def skipped_errors_def List.map_filter_simps write_log_def)
qed

text \<open>
  Claim C7. \<open>check_internet_availability\<close> returns at the first endpoint that answers,
  whatever the status code, when the endpoints before it raised a connection error, a
  timeout or another request exception: \<open>available\<close> is \<open>200 \<le> status_code < 400\<close>,
  \<open>test_url\<close> is that endpoint, \<open>ping\<close> is the elapsed time in milliseconds rounded
  to two places. A status of 400 or more adds a warning to the log and nothing else: the
  result does not depend on the endpoints after it, and the downtime state is not touched.
  The endpoints skipped leave no trace but the errors logged for request exceptions.
\<close>

theorem check_first_response:
  assumes "i < length test_urls"
    and "\<forall>j < i. advances (requests_get w (test_urls ! j))"
    and "requests_get w (test_urls ! i) = Response code start finish"
  shows "check_internet_availability s w =
           (Inr \<lparr>available = (200 \<le> code \<and> code < 400), status_code = code,
                 ping = Some (py_round2 (float_mul (float_sub finish start) 1000)),
                 test_url = Some (test_urls ! i)\<rparr>,
            (if 400 \<le> code then write_log (Warning_HTTP_Error code (test_urls ! i)) else id)
              (s\<lparr>logger := logger s @ skipped_errors (requests_get w) (take i test_urls)\<rparr>))"
proof -
  let ?pre = "take i test_urls" and ?rest = "drop (Suc i) test_urls"
  have split: "test_urls = ?pre @ (test_urls ! i) # ?rest"
    using assms(1) by (simp add: id_take_nth_drop)
  have "\<forall>u \<in> set ?pre. advances (requests_get w u)"
    using assms(1,2) by (fastforce simp: in_set_conv_nth)
  then have "probe_urls s (requests_get w) (?pre @ (test_urls ! i) # ?rest) =
             probe_urls (s\<lparr>logger := logger s @ skipped_errors (requests_get w) ?pre\<rparr>)
               (requests_get w) ((test_urls ! i) # ?rest)"
    by (rule probe_urls_advance)
  with split have "probe_urls s (requests_get w) test_urls =
             probe_urls (s\<lparr>logger := logger s @ skipped_errors (requests_get w) ?pre\<rparr>)
               (requests_get w) ((test_urls ! i) # ?rest)"
    by simp
  then show ?thesis
    using assms(3) by (simp add: check_internet_availability_def Let_def)
qed

lemma quarter_second_ping:
  "py_round2 (float_mul (float_sub time_after time_before) 1000) = 250"
  unfolding time_after_def time_before_def by code_simp

theorem check_first_response_witness:
  "advances (requests_get world_second_answers (test_urls ! 0)) \<and>
   requests_get world_second_answers (test_urls ! 1) = Response 404 time_before time_after \<and>
   check_internet_availability monitor_up world_second_answers =
     (Inr \<lparr>available = False, status_code = 404, ping = Some 250,
           test_url = Some cloudflare\<rparr>,
      write_log (Warning_HTTP_Error 404 cloudflare) monitor_up)"
proof -
  have h0: "advances (requests_get world_second_answers (test_urls ! 0))"
    and h1: "requests_get world_second_answers (test_urls ! 1) =
       Response 404 time_before time_after"
    and u1: "test_urls ! 1 = cloudflare"
    and sk: "skipped_errors (requests_get world_second_answers) (take 1 test_urls) = []"
    by (simp_all add: world_second_answers_def world_up_def test_urls_def google_def
          cloudflare_def advances_def skipped_errors_def List.map_filter_simps)
  have "1 < length test_urls"
    by (simp add: test_urls_def)
  moreover have "\<forall>j < 1. advances (requests_get world_second_answers (test_urls ! j))"
    using h0 by simp
  ultimately have "check_internet_availability monitor_up world_second_answers =
     (Inr \<lparr>available = (200 \<le> (404::int) \<and> (404::int) < 400), status_code = 404,
           ping = Some (py_round2 (float_mul (float_sub time_after time_before) 1000)),
           test_url = Some (test_urls ! 1)\<rparr>,
      (if 400 \<le> (404::int) then write_log (Warning_HTTP_Error 404 (test_urls ! 1)) else id)
        (monitor_up\<lparr>logger := logger monitor_up @
           skipped_errors (requests_get world_second_answers) (take 1 test_urls)\<rparr>))"
    using h1 by (rule check_first_response)
  then have "check_internet_availability monitor_up world_second_answers =
     (Inr \<lparr>available = False, status_code = 404, ping = Some 250,
           test_url = Some cloudflare\<rparr>,
      write_log (Warning_HTTP_Error 404 cloudflare) monitor_up)"
    unfolding u1 quarter_second_ping sk by simp
  with h0 h1 show ?thesis
    by blast
qed

section \<open>The connection census\<close>

lemma scan_connections_entries:
  "fst (scan_connections acc conns) =
     acc @ List.map_filter qualifying (takeWhile (\<lambda>c. \<not> scan_aborts c) conns)"
proof (induction conns arbitrary: acc)
  case Nil
  then show ?case by (simp add: List.map_filter_simps)
next
  case (Cons conn conns)
  then show ?case
    by (simp add: qualifying_def scan_aborts_def
             split: option.splits process_lookup.splits)
qed

text \<open>
  Claim C5. When \<open>psutil.net_connections\<close> raises, \<open>get_network_processes\<close> returns
  the empty list and logs the error; nothing propagates.
\<close>

theorem census_enumeration_failure:
  "get_network_processes s (Inl e) = ([], write_log (Error_Process_scan e) s)"
  by (simp add: get_network_processes_def)

text \<open>
  Claim C8, as amended. Whatever the enumeration, \<open>get_network_processes\<close> returns at
  most 20 entries: the first 20, in enumeration order, of the entries of the qualifying
  connections enumerated before the first connection whose process lookup raises an
  exception other than the two that the loop skips. When no lookup raises such an
  exception, these are the first 20 qualifying entries of the whole enumeration.
\<close>

theorem census_first_twenty:
  "length (fst (get_network_processes s nc)) \<le> 20 \<and>
   fst (get_network_processes s (Inr conns)) =
     take 20 (List.map_filter qualifying (takeWhile (\<lambda>c. \<not> scan_aborts c) conns)) \<and>
   ((\<forall>c \<in> set conns. \<not> scan_aborts c) \<longrightarrow>
      fst (get_network_processes s (Inr conns)) = take 20 (List.map_filter qualifying conns))"
proof (intro conjI impI)
  show "length (fst (get_network_processes s nc)) \<le> 20"
    by (simp add: get_network_processes_def split: sum.splits prod.splits option.splits)
  have "fst (get_network_processes s (Inr conns)) = take 20 (fst (scan_connections [] conns))"
    by (simp add: get_network_processes_def split: prod.splits option.splits)
  then show scanned: "fst (get_network_processes s (Inr conns)) =
     take 20 (List.map_filter qualifying (takeWhile (\<lambda>c. \<not> scan_aborts c) conns))"
    by (simp add: scan_connections_entries)
  assume "\<forall>c \<in> set conns. \<not> scan_aborts c"
  then have "takeWhile (\<lambda>c. \<not> scan_aborts c) conns = conns"
    by (simp add: takeWhile_eq_all_conv)
  with scanned show "fst (get_network_processes s (Inr conns)) =
      take 20 (List.map_filter qualifying conns)"
    by simp
qed

lemma sample_connections:
  "qualifying connection_curl = Some (make_entry connection_curl 21 ''curl'')"
  "qualifying connection_ssh = Some (make_entry connection_ssh 23 ''ssh'')"
  "qualifying connection_broken = None"
  "qualifying connection_gone = None"
  "\<not> scan_aborts connection_curl"
  "\<not> scan_aborts connection_ssh"
  "\<not> scan_aborts connection_gone"
  "scan_aborts connection_broken"
  by (simp_all add: qualifying_def scan_aborts_def connection_curl_def connection_ssh_def
        connection_broken_def connection_gone_def CONN_ESTABLISHED_def)

theorem census_first_twenty_witness:
  "\<not> scan_aborts connection_curl \<and> \<not> scan_aborts connection_gone \<and>
   \<not> scan_aborts connection_ssh \<and>
   fst (get_network_processes monitor_up (Inr [connection_curl, connection_gone, connection_ssh])) =
     [make_entry connection_curl 21 ''curl'', make_entry connection_ssh 23 ''ssh''] \<and>
   fst (get_network_processes monitor_up (Inr [connection_curl, connection_broken, connection_ssh])) =
     [make_entry connection_curl 21 ''curl'']"
proof -
  have "\<forall>c \<in> set [connection_curl, connection_gone, connection_ssh]. \<not> scan_aborts c"
    by (simp add: sample_connections)
  with census_first_twenty [of monitor_up "Inr []"
      "[connection_curl, connection_gone, connection_ssh]"]
  have a: "fst (get_network_processes monitor_up
         (Inr [connection_curl, connection_gone, connection_ssh])) =
       take 20 (List.map_filter qualifying [connection_curl, connection_gone, connection_ssh])"
    by blast
  from census_first_twenty [of monitor_up "Inr []"
      "[connection_curl, connection_broken, connection_ssh]"]
  have b: "fst (get_network_processes monitor_up
         (Inr [connection_curl, connection_broken, connection_ssh])) =
       take 20 (List.map_filter qualifying (takeWhile (\<lambda>c. \<not> scan_aborts c)
         [connection_curl, connection_broken, connection_ssh]))"
    by blast
  show ?thesis
    unfolding a b by (simp add: sample_connections List.map_filter_simps)
qed

text \<open>
  Claim C8, as stated, fails. Of three established connections the second's lookup raises
  \<open>OSError\<close>: the loop ends there, and the third connection, which qualifies, is not
  in the result.
\<close>

theorem census_aborted_scan_counterexample:
  "map pid (fst (get_network_processes monitor_up
      (Inr [connection_curl, connection_broken, connection_ssh]))) = [21] \<and>
   map pid (take 20 (List.map_filter qualifying
      [connection_curl, connection_broken, connection_ssh])) = [21, 23] \<and>
   fst (get_network_processes monitor_up
      (Inr [connection_curl, connection_broken, connection_ssh])) \<noteq>
     take 20 (List.map_filter qualifying [connection_curl, connection_broken, connection_ssh])"
proof -
  have "scan_connections [] [connection_curl, connection_broken, connection_ssh] =
      ([make_entry connection_curl 21 ''curl''], Some (Raised ''OSError''))"
    by (simp add: connection_curl_def connection_broken_def CONN_ESTABLISHED_def)
  then have r: "fst (get_network_processes monitor_up
      (Inr [connection_curl, connection_broken, connection_ssh])) =
      [make_entry connection_curl 21 ''curl'']"
    by (simp add: get_network_processes_def)
  show ?thesis
    unfolding r by (simp add: sample_connections List.map_filter_simps make_entry_def)
qed

section \<open>The downtime state and the snapshot\<close>

lemma probe_urls_last_down_time:
  "last_down_time (snd (probe_urls s get urls)) = last_down_time s"
  by (induction urls arbitrary: s)
     (auto simp: write_log_def Let_def split: http_outcome.splits)

lemma check_available_keeps_state:
  assumes "check_internet_availability s w = (Inr r, s')" and "available r"
  shows "last_down_time s' = last_down_time s"
proof -
  obtain res s1 where p: "probe_urls s (requests_get w) test_urls = (res, s1)"
    by force
  have "last_down_time s1 = last_down_time s"
    using probe_urls_last_down_time [of s "requests_get w" test_urls] p by simp
  with assms p show ?thesis
    by (auto simp: check_internet_availability_def split: sum.splits option.splits)
qed

lemma measure_speed_last_down_time:
  "last_down_time (snd (measure_speed s run)) = last_down_time s"
  by (simp add: measure_speed_def write_log_def split: speedtest_run.splits)

lemma get_network_info_last_down_time:
  "last_down_time (snd (get_network_info s w)) = last_down_time s"
  by (simp add: get_network_info_def write_log_def Let_def
           split: sum.splits prod.splits option.splits)

lemma get_traffic_usage_last_down_time:
  "last_down_time (snd (get_traffic_usage s io)) = last_down_time s"
proof (cases io)
  case (Inl e)
  then show ?thesis by (simp add: get_traffic_usage_def)
next
  case (Inr c)
  then show ?thesis by (simp add: get_traffic_usage_state)
qed

lemma get_network_processes_last_down_time:
  "last_down_time (snd (get_network_processes s nc)) = last_down_time s"
  by (simp add: get_network_processes_def write_log_def
           split: sum.splits prod.splits option.splits)


text \<open>
  Claim C2, as amended. In every execution of \<open>get_all_stats\<close> that returns a snapshot,
  \<open>last_down\<close> is the downtime state as the connectivity check left it: the onset is
  recorded before the snapshot is assembled, the recovery is processed after it. When the
  check finds the internet available, the snapshot carries the downtime state as it was
  before the call, so the snapshot of the cycle that detects a recovery shows the onset of
  the outage, and the state is cleared only in the monitor that the call leaves; when it
  does not, the call leaves the state as the check set it.
\<close>

theorem snapshot_precedes_recovery:
  assumes "get_all_stats s w = (Inr st, s')"
  shows "last_down st =
           (case last_down_time (snd (check_internet_availability s w)) of
              Some t \<Rightarrow> DownAt (strftime t) | None \<Rightarrow> Never) \<and>
         (available (availability st) \<longrightarrow>
            last_down st = (case last_down_time s of
                              Some t \<Rightarrow> DownAt (strftime t) | None \<Rightarrow> Never) \<and>
            last_down_time s' = None) \<and>
         (\<not> available (availability st) \<longrightarrow>
            last_down_time s' = last_down_time (snd (check_internet_availability s w)))"
proof -
  obtain avail s1 where c: "check_internet_availability s w = (Inr avail, s1)"
    using assms by (auto simp: get_all_stats_def split: sum.splits prod.splits)
  obtain speed_res s2 where sp:
    "(if available avail then
        (case speedtest w of
           Joined run \<Rightarrow> measure_speed s1 run
         | Still_running \<Rightarrow> (\<lparr>download = None, upload = None\<rparr>, s1))
      else (\<lparr>download = None, upload = None\<rparr>, s1)) = (speed_res, s2)"
    by force
  have l2: "last_down_time s2 = last_down_time s1"
    using sp measure_speed_last_down_time [of s1]
    by (auto split: if_splits speed_thread.splits) (metis snd_conv)
  obtain r3 s3 where n: "get_network_info s2 w = (r3, s3)"
    by force
  have l3: "last_down_time s3 = last_down_time s1"
    using get_network_info_last_down_time [of s2 w] n l2 by simp
  obtain r4 s4 where t: "get_traffic_usage s3 (net_io_counters w) = (r4, s4)"
    by force
  have l4: "last_down_time s4 = last_down_time s1"
    using get_traffic_usage_last_down_time [of s3 "net_io_counters w"] t l3 by simp
  obtain procs s5 where p: "get_network_processes s4 (net_connections w) = (procs, s5)"
    by force
  have l5: "last_down_time s5 = last_down_time s1"
    using get_network_processes_last_down_time [of s4 "net_connections w"] p l4 by simp
  have all: "get_all_stats s w =
    (case r3 of
       Inl e \<Rightarrow> (Inl e, s3)
     | Inr info \<Rightarrow>
         (case r4 of
            Inl e \<Rightarrow> (Inl e, s4)
          | Inr usage \<Rightarrow>
              (let result = \<lparr>timestamp = strftime (now_stats w), availability = avail,
                    speed = speed_res, network_info = info, traffic = usage,
                    processes = procs,
                    last_down = (case last_down_time s5 of
                                   Some t \<Rightarrow> DownAt (strftime t) | None \<Rightarrow> Never)\<rparr>
               in case last_down_time s5 of
                    Some t \<Rightarrow>
                      if available avail then
                        (Inr result,
                         (write_log (Info_INTERNET_RESTORED (now_restored w - t)) s5)
                           \<lparr>last_down_time := None\<rparr>)
                      else (Inr result, s5)
                  | None \<Rightarrow> (Inr result, s5))))"
    by (simp add: get_all_stats_def c sp n t p split: sum.splits)
  obtain info usage where r3: "r3 = Inr info" and r4: "r4 = Inr usage"
    using assms all by (auto split: sum.splits)
  note res = all [unfolded r3 r4 sum.case]
  have av: "availability st = avail"
    and ld: "last_down st = (case last_down_time s1 of
                               Some t \<Rightarrow> DownAt (strftime t) | None \<Rightarrow> Never)"
    using assms res l5 by (auto simp: Let_def split: option.splits if_splits)
  have up: "available avail \<Longrightarrow> last_down_time s' = None"
    using assms res by (auto simp: Let_def write_log_def split: option.splits if_splits)
  have down: "\<not> available avail \<Longrightarrow> last_down_time s' = last_down_time s1"
    using assms res l5 by (auto simp: Let_def split: option.splits if_splits)
  have keep: "available avail \<Longrightarrow> last_down_time s1 = last_down_time s"
    using check_available_keeps_state [OF c] .
  show ?thesis
    using av ld up down keep c by simp
qed

lemma check_world_up:
  "requests_get w = requests_get world_up \<Longrightarrow>
   check_internet_availability s w =
     (Inr \<lparr>available = True, status_code = 200, ping = Some 250, test_url = Some google\<rparr>, s)"
  by (simp add: check_internet_availability_def test_urls_def world_up_def google_def
        quarter_second_ping)

lemma network_info_world_up:
  "gethostname w = Inr ''host'' \<Longrightarrow> interfaces w = Inr [] \<Longrightarrow>
   get_network_info s w =
     (Inr \<lparr>hostname = ''host'', local_ip = ''N/A'', mac_address = ''N/A'',
           interface_name = ''N/A'', info_external_ip = external_ip s,
           info_provider = provider s\<rparr>, s)"
  by (simp add: get_network_info_def)

lemma traffic_world_up:
  assumes "traffic_stats s = \<lparr>sent = 1000000, recv = 5000000\<rparr>"
  shows "get_traffic_usage s (Inr counters_after) =
     (Inr \<lparr>sent_total_mb = total_mb 1102400, recv_total_mb = total_mb 5000000,
           sent_rate_kbps = 80, recv_rate_kbps = 0\<rparr>,
      s\<lparr>traffic_stats := \<lparr>sent = 1102400, recv = 5000000\<rparr>\<rparr>)"
proof -
  have "fst (get_traffic_usage s (Inr counters_after)) =
     Inr \<lparr>sent_total_mb = total_mb (bytes_sent counters_after),
          recv_total_mb = total_mb (bytes_recv counters_after),
          sent_rate_kbps = rate_kbps (bytes_sent counters_after - sent (traffic_stats s)),
          recv_rate_kbps = rate_kbps (bytes_recv counters_after - recv (traffic_stats s))\<rparr>"
    by (rule get_traffic_usage_returns) (simp_all add: counters_after_def assms)
  then have "fst (get_traffic_usage s (Inr counters_after)) =
     Inr \<lparr>sent_total_mb = total_mb 1102400, recv_total_mb = total_mb 5000000,
          sent_rate_kbps = 80, recv_rate_kbps = 0\<rparr>"
    by (simp add: counters_after_def assms rate_kbps_102400 rate_kbps_zero)
  moreover have "snd (get_traffic_usage s (Inr counters_after)) =
      s\<lparr>traffic_stats := \<lparr>sent = 1102400, recv = 5000000\<rparr>\<rparr>"
    by (simp add: get_traffic_usage_state counters_after_def)
  ultimately show ?thesis
    by (metis prod.collapse)
qed

lemma monitor_up_fields:
  "last_down_time monitor_up = None"
  "external_ip monitor_up = ''203.0.113.7''"
  "provider monitor_up = ''Example ISP''"
  "traffic_stats monitor_up = \<lparr>sent = 1000000, recv = 5000000\<rparr>"
  by (simp_all add: monitor_up_def)

lemma monitor_down_fields:
  "last_down_time monitor_down = Some 1700000000000000"
  "external_ip monitor_down = ''203.0.113.7''"
  "provider monitor_down = ''Example ISP''"
  "traffic_stats monitor_down = \<lparr>sent = 1000000, recv = 5000000\<rparr>"
  by (simp_all add: monitor_down_def monitor_up_def)

lemma world_up_fields:
  "speedtest world_up = Still_running"
  "gethostname world_up = Inr ''host''"
  "interfaces world_up = Inr []"
  "net_io_counters world_up = Inr counters_after"
  "net_connections world_up = Inr []"
  "now_stats world_up = 1700000109000000"
  "now_restored world_up = 1700000109500000"
  by (simp_all add: world_up_def)

lemma get_all_stats_world_up:
  assumes "traffic_stats s = \<lparr>sent = 1000000, recv = 5000000\<rparr>"
    and "external_ip s = ''203.0.113.7''" and "provider s = ''Example ISP''"
  shows "get_all_stats s world_up =
     (Inr (snapshot_up (case last_down_time s of
                          Some t \<Rightarrow> DownAt (strftime t) | None \<Rightarrow> Never)),
      case last_down_time s of
        Some t \<Rightarrow>
          (write_log (Info_INTERNET_RESTORED (1700000109500000 - t))
             (s\<lparr>traffic_stats := \<lparr>sent = 1102400, recv = 5000000\<rparr>\<rparr>))
            \<lparr>last_down_time := None\<rparr>
      | None \<Rightarrow> s\<lparr>traffic_stats := \<lparr>sent = 1102400, recv = 5000000\<rparr>\<rparr>)"
proof -
  have c: "check_internet_availability s world_up =
     (Inr \<lparr>available = True, status_code = 200, ping = Some 250, test_url = Some google\<rparr>, s)"
    by (rule check_world_up) simp
  have n: "get_network_info s world_up =
     (Inr \<lparr>hostname = ''host'', local_ip = ''N/A'', mac_address = ''N/A'',
           interface_name = ''N/A'', info_external_ip = external_ip s,
           info_provider = provider s\<rparr>, s)"
    by (rule network_info_world_up) (simp_all add: world_up_fields)
  have t: "get_traffic_usage s (Inr counters_after) =
     (Inr \<lparr>sent_total_mb = total_mb 1102400, recv_total_mb = total_mb 5000000,
           sent_rate_kbps = 80, recv_rate_kbps = 0\<rparr>,
      s\<lparr>traffic_stats := \<lparr>sent = 1102400, recv = 5000000\<rparr>\<rparr>)"
    using assms(1) by (rule traffic_world_up)
  show ?thesis
    by (simp add: get_all_stats_def c n t world_up_fields get_network_processes_def
          snapshot_up_def strftime_def assms(2,3) split: option.splits)
qed

lemma get_all_stats_up:
  "get_all_stats monitor_up world_up = (Inr (snapshot_up Never), monitor_sampled)"
  using get_all_stats_world_up [of monitor_up]
  by (simp add: monitor_up_fields monitor_sampled_def)

lemma get_all_stats_recovery:
  "get_all_stats monitor_down world_up =
     (Inr (snapshot_up (DownAt (Formatted 1700000000))), monitor_recovered)"
proof -
  have "get_all_stats monitor_down world_up =
     (Inr (snapshot_up (DownAt (strftime 1700000000000000))),
      (write_log (Info_INTERNET_RESTORED (1700000109500000 - 1700000000000000))
         (monitor_down\<lparr>traffic_stats := \<lparr>sent = 1102400, recv = 5000000\<rparr>\<rparr>))
        \<lparr>last_down_time := None\<rparr>)"
    using get_all_stats_world_up [of monitor_down] by (simp add: monitor_down_fields)
  moreover have "(write_log (Info_INTERNET_RESTORED (1700000109500000 - 1700000000000000))
         (monitor_down\<lparr>traffic_stats := \<lparr>sent = 1102400, recv = 5000000\<rparr>\<rparr>))
        \<lparr>last_down_time := None\<rparr> = monitor_recovered"
    by (simp add: write_log_def monitor_down_def monitor_up_def monitor_recovered_def
          monitor_sampled_def)
  moreover have "strftime 1700000000000000 = Formatted 1700000000"
    by (simp add: strftime_def)
  ultimately show ?thesis
    by simp
qed

text \<open>
  Claim C2, as stated, fails. The monitor is down since second 1700000000 and every
  endpoint answers 200: the call detects the recovery and clears the downtime state, and
  the snapshot it returns still shows the onset, not \<open>Never\<close>.
\<close>

theorem recovery_snapshot_counterexample:
  "last_down_time monitor_down = Some 1700000000000000 \<and>
   \<not> isl (fst (get_all_stats monitor_down world_up)) \<and>
   available (availability (projr (fst (get_all_stats monitor_down world_up)))) \<and>
   last_down_time (snd (get_all_stats monitor_down world_up)) = None \<and>
   last_down (projr (fst (get_all_stats monitor_down world_up))) =
     DownAt (Formatted 1700000000) \<and>
   last_down (projr (fst (get_all_stats monitor_down world_up))) \<noteq> Never"
  unfolding get_all_stats_recovery
  by (simp add: snapshot_up_def monitor_recovered_def monitor_sampled_def monitor_down_def
        monitor_up_def)

theorem snapshot_precedes_recovery_witness:
  "get_all_stats monitor_down world_up =
     (Inr (snapshot_up (DownAt (Formatted 1700000000))), monitor_recovered) \<and>
   available (availability (snapshot_up (DownAt (Formatted 1700000000)))) \<and>
   last_down (snapshot_up (DownAt (Formatted 1700000000))) =
     (case last_down_time monitor_down of
        Some t \<Rightarrow> DownAt (strftime t) | None \<Rightarrow> Never) \<and>
   last_down_time monitor_recovered = None"
proof -
  have a: "available (availability (snapshot_up (DownAt (Formatted 1700000000))))"
    by (simp add: snapshot_up_def)
  from snapshot_precedes_recovery [OF get_all_stats_recovery] a
  have "last_down (snapshot_up (DownAt (Formatted 1700000000))) =
     (case last_down_time monitor_down of
        Some t \<Rightarrow> DownAt (strftime t) | None \<Rightarrow> Never) \<and>
   last_down_time monitor_recovered = None"
    by blast
  with a get_all_stats_recovery show ?thesis
    by blast
qed

section \<open>When the onset of an outage is recorded\<close>

lemma skipped_errors_no_critical:
  "Critical_INTERNET_DOWN \<notin> set (skipped_errors get urls)"
  by (auto simp: skipped_errors_def List.map_filter_def split: http_outcome.splits)

lemma probe_urls_exhausted:
  "probe_urls s get urls = (Inr None, s1) \<Longrightarrow> \<forall>u \<in> set urls. advances (get u)"
proof (induction urls arbitrary: s)
  case Nil
  then show ?case by simp
next
  case (Cons u urls)
  show ?case
  proof (cases "get u")
    case (Response code start finish)
    with Cons.prems show ?thesis by (simp add: Let_def)
  next
    case ConnectionError
    with Cons.prems have "probe_urls s get urls = (Inr None, s1)" by simp
    from Cons.IH [OF this] ConnectionError show ?thesis by (simp add: advances_def)
  next
    case Timeout
    with Cons.prems have "probe_urls s get urls = (Inr None, s1)" by simp
    from Cons.IH [OF this] Timeout show ?thesis by (simp add: advances_def)
  next
    case (RequestException e)
    with Cons.prems
    have "probe_urls (write_log (Error_Request_exception e) s) get urls = (Inr None, s1)"
      by simp
    from Cons.IH [OF this] RequestException show ?thesis by (simp add: advances_def)
  next
    case (Other_exception e)
    with Cons.prems show ?thesis by simp
  qed
qed

lemma probe_urls_answered:
  "probe_urls s get urls = (Inr (Some r), s1) \<Longrightarrow>
   test_url r \<noteq> None \<and> last_down_time s1 = last_down_time s \<and>
   (\<exists>new. logger s1 = logger s @ new \<and> Critical_INTERNET_DOWN \<notin> set new)"
proof (induction urls arbitrary: s)
  case Nil
  then show ?case by simp
next
  case (Cons u urls)
  show ?case
  proof (cases "get u")
    case (Response code start finish)
    with Cons.prems show ?thesis
      by (auto simp: Let_def write_log_def split: if_splits)
  next
    case ConnectionError
    with Cons show ?thesis by simp
  next
    case Timeout
    with Cons show ?thesis by simp
  next
    case (RequestException e)
    with Cons.prems
    have "probe_urls (write_log (Error_Request_exception e) s) get urls = (Inr (Some r), s1)"
      by simp
    from Cons.IH [OF this] obtain new where
      "test_url r \<noteq> None" "last_down_time s1 = last_down_time s"
      "logger s1 = logger s @ Error_Request_exception e # new"
      "Critical_INTERNET_DOWN \<notin> set new"
      by (auto simp: write_log_def)
    then show ?thesis
      by (intro conjI exI [of _ "Error_Request_exception e # new"]) simp_all
  next
    case (Other_exception e)
    with Cons.prems show ?thesis by simp
  qed
qed

text \<open>
  Claim C1, as amended. For every call of \<open>check_internet_availability\<close> that returns:
  the result has no \<open>test_url\<close> exactly when no endpoint answered, and then it has
  \<open>available\<close> false and \<open>status_code\<close> 0. If no endpoint answered and the downtime
  state is empty, the onset is recorded and a critical record is logged. A result that
  comes from an answer, also one with \<open>available\<close> false, leaves the downtime state as
  it was and logs no critical record, and so does a call that finds the state already
  set. So the downtime state is set after the call if and only if it was set before it or
  no endpoint answered.
\<close>

theorem onset_recorded_when_no_answer:
  assumes "check_internet_availability s w = (Inr r, s')"
  shows "(test_url r = None) = (\<forall>u \<in> set test_urls. advances (requests_get w u)) \<and>
         (test_url r = None \<longrightarrow> \<not> available r \<and> status_code r = 0) \<and>
         (test_url r = None \<and> last_down_time s = None \<longrightarrow>
            last_down_time s' = Some (now_down w) \<and>
            logger s' = logger s @ skipped_errors (requests_get w) test_urls
                          @ [Critical_INTERNET_DOWN]) \<and>
         (test_url r \<noteq> None \<or> last_down_time s \<noteq> None \<longrightarrow>
            last_down_time s' = last_down_time s \<and>
            (\<exists>new. logger s' = logger s @ new \<and> Critical_INTERNET_DOWN \<notin> set new)) \<and>
         (last_down_time s' \<noteq> None) = (last_down_time s \<noteq> None \<or> test_url r = None)"
proof -
  obtain res s1 where p: "probe_urls s (requests_get w) test_urls = (Inr res, s1)"
    using assms by (auto simp: check_internet_availability_def split: sum.splits prod.splits)
  show ?thesis
  proof (cases res)
    case None
    from p None have adv: "\<forall>u \<in> set test_urls. advances (requests_get w u)"
      using probe_urls_exhausted by blast
    from probe_urls_advance [OF adv, of s "[]"] p None
    have s1: "s1 = s\<lparr>logger := logger s @ skipped_errors (requests_get w) test_urls\<rparr>"
      by simp
    from assms p None have r: "r = \<lparr>available = False, status_code = 0, ping = None,
        test_url = None\<rparr>"
      and s': "s' = (if last_down_time s1 = None
           then write_log Critical_INTERNET_DOWN (s1\<lparr>last_down_time := Some (now_down w)\<rparr>)
           else s1)"
      by (simp_all add: check_internet_availability_def)
    show ?thesis
      using adv skipped_errors_no_critical [of "requests_get w" test_urls]
      by (auto simp: r s' s1 write_log_def)
  next
    case (Some r0)
    from assms p Some have eq: "r = r0" "s' = s1"
      by (simp_all add: check_internet_availability_def)
    from probe_urls_answered [of s "requests_get w" test_urls r0 s1] p Some
    have a: "test_url r \<noteq> None" "last_down_time s' = last_down_time s"
      "\<exists>new. logger s' = logger s @ new \<and> Critical_INTERNET_DOWN \<notin> set new"
      by (simp_all add: eq)
    have "\<not> (\<forall>u \<in> set test_urls. advances (requests_get w u))"
    proof
      assume "\<forall>u \<in> set test_urls. advances (requests_get w u)"
      from probe_urls_advance [OF this, of s "[]"] p Some show False
        by simp
    qed
    with a show ?thesis
      by auto
  qed
qed

theorem onset_recorded_when_no_answer_witness:
  "check_internet_availability monitor_up world_offline =
     (Inr \<lparr>available = False, status_code = 0, ping = None, test_url = None\<rparr>,
      write_log Critical_INTERNET_DOWN (monitor_up\<lparr>last_down_time := Some 1700000100000000\<rparr>)) \<and>
   last_down_time monitor_up = None \<and>
   last_down_time (write_log Critical_INTERNET_DOWN
      (monitor_up\<lparr>last_down_time := Some 1700000100000000\<rparr>)) = Some 1700000100000000 \<and>
   logger (write_log Critical_INTERNET_DOWN
      (monitor_up\<lparr>last_down_time := Some 1700000100000000\<rparr>)) = [Critical_INTERNET_DOWN]"
proof -
  have "probe_urls monitor_up (requests_get world_offline) test_urls = (Inr None, monitor_up)"
    by (rule probe_urls_all_fail) (simp add: world_offline_def world_up_def)
  then have c: "check_internet_availability monitor_up world_offline =
     (Inr \<lparr>available = False, status_code = 0, ping = None, test_url = None\<rparr>,
      write_log Critical_INTERNET_DOWN (monitor_up\<lparr>last_down_time := Some 1700000100000000\<rparr>))"
    by (simp add: check_internet_availability_def monitor_up_def world_offline_def world_up_def)
  have n: "last_down_time monitor_up = None" "logger monitor_up = []"
    by (simp_all add: monitor_up_def)
  have sk: "skipped_errors (requests_get world_offline) test_urls = []"
    by (simp add: skipped_errors_def List.map_filter_simps test_urls_def world_offline_def
          world_up_def)
  have d: "now_down world_offline = 1700000100000000"
    by (simp add: world_offline_def world_up_def)
  from onset_recorded_when_no_answer [OF c] n sk d
  have "last_down_time (write_log Critical_INTERNET_DOWN
      (monitor_up\<lparr>last_down_time := Some 1700000100000000\<rparr>)) = Some 1700000100000000 \<and>
   logger (write_log Critical_INTERNET_DOWN
      (monitor_up\<lparr>last_down_time := Some 1700000100000000\<rparr>)) = [Critical_INTERNET_DOWN]"
    by simp
  with c n show ?thesis
    by blast
qed

text \<open>
  Claim C1, as stated, fails. The monitor is up and the first endpoint answers 503: the
  result has \<open>available\<close> false, the downtime state stays empty and no critical
  record is logged. The source returns from its branch for an answer, after the warning
  for a status of 400 or more; it records an outage only after the loop, when all
  endpoints have failed.
\<close>

theorem http_error_skips_downtime:
  "check_internet_availability monitor_up world_http_503 =
     (Inr \<lparr>available = False, status_code = 503, ping = Some 250, test_url = Some google\<rparr>,
      write_log (Warning_HTTP_Error 503 google) monitor_up) \<and>
   last_down_time monitor_up = None \<and>
   last_down_time (snd (check_internet_availability monitor_up world_http_503)) = None \<and>
   Critical_INTERNET_DOWN \<notin> set (logger (snd (check_internet_availability monitor_up
     world_http_503)))"
proof -
  have c: "check_internet_availability monitor_up world_http_503 =
     (Inr \<lparr>available = False, status_code = 503, ping = Some 250, test_url = Some google\<rparr>,
      write_log (Warning_HTTP_Error 503 google) monitor_up)"
    by (simp add: check_internet_availability_def test_urls_def world_http_503_def
          world_up_def google_def quarter_second_ping)
  show ?thesis
    unfolding c by (simp add: write_log_def monitor_up_def)
qed

section \<open>A failure that is not caught\<close>

text \<open>
  Claim C3 at an input where the code departs from it. Every endpoint answers, and reading
  the traffic counters raises: \<open>get_traffic_usage\<close> has no \<open>try\<close>, so the exception
  leaves \<open>get_all_stats\<close> and no snapshot is returned.
\<close>

theorem traffic_failure_propagates:
  "get_all_stats monitor_up world_no_counters =
     (Inl (Raised ''AttributeError: NoneType object has no attribute bytes_sent''),
      monitor_up)"
proof -
  have c: "check_internet_availability monitor_up world_no_counters =
     (Inr \<lparr>available = True, status_code = 200, ping = Some 250, test_url = Some google\<rparr>,
      monitor_up)"
    by (rule check_world_up) (simp add: world_no_counters_def)
  have n: "get_network_info monitor_up world_no_counters =
     (Inr \<lparr>hostname = ''host'', local_ip = ''N/A'', mac_address = ''N/A'',
           interface_name = ''N/A'', info_external_ip = external_ip monitor_up,
           info_provider = provider monitor_up\<rparr>, monitor_up)"
    by (rule network_info_world_up) (simp_all add: world_no_counters_def world_up_def)
  have w: "speedtest world_no_counters = Still_running"
    "net_io_counters world_no_counters =
       Inl (Raised ''AttributeError: NoneType object has no attribute bytes_sent'')"
    by (simp_all add: world_no_counters_def world_up_def)
  show ?thesis
    by (simp add: get_all_stats_def c n w get_traffic_usage_def)
qed

section \<open>The cache of \<open>app.py\<close>\<close>

lemma cache_is_stale: "CACHE_TTL < float_sub time_after (cache_time app_stale)"
  unfolding CACHE_TTL_def time_after_def app_stale_def by code_simp

text \<open>
  Claim C10. \<open>get_stats\<close> never changes the module-level \<open>cached_stats\<close> and
  \<open>cache_time\<close>. When the cache is older than \<open>CACHE_TTL\<close>, it returns what a fresh
  \<open>get_all_stats\<close> returns (which does change the monitor) and still leaves both as
  they were; the pass of \<open>update_cache\<close> is what stores a snapshot and its time.
\<close>

theorem stale_read_keeps_cache:
  "cached_stats (snd (get_stats a now w)) = cached_stats a \<and>
   cache_time (snd (get_stats a now w)) = cache_time a \<and>
   (CACHE_TTL < float_sub now (cache_time a) \<longrightarrow>
      fst (get_stats a now w) = fst (get_all_stats (app_monitor a) w) \<and>
      app_monitor (snd (get_stats a now w)) = snd (get_all_stats (app_monitor a) w)) \<and>
   (fst (get_all_stats (app_monitor a) w) = Inr st \<longrightarrow>
      cached_stats (snd (update_cache a w now)) = Some st \<and>
      cache_time (snd (update_cache a w now)) = now)"
  by (auto simp: get_stats_def update_cache_def split: prod.splits sum.splits)

theorem stale_read_keeps_cache_witness:
  "CACHE_TTL < float_sub time_after (cache_time app_stale) \<and>
   fst (get_all_stats (app_monitor app_stale) world_up) = Inr (snapshot_up Never) \<and>
   fst (get_stats app_stale time_after world_up) = Inr (snapshot_up Never) \<and>
   cached_stats (snd (get_stats app_stale time_after world_up)) = None \<and>
   cache_time (snd (get_stats app_stale time_after world_up)) = 0 \<and>
   cached_stats (snd (update_cache app_stale world_up time_after)) = Some (snapshot_up Never)"
proof -
  have g: "fst (get_all_stats (app_monitor app_stale) world_up) = Inr (snapshot_up Never)"
    by (simp add: app_stale_def get_all_stats_up)
  have k: "cached_stats app_stale = None" "cache_time app_stale = 0"
    by (simp_all add: app_stale_def)
  from stale_read_keeps_cache [of app_stale time_after world_up "snapshot_up Never"]
    cache_is_stale g k
  show ?thesis
    by simp
qed

end
